theory Spec2Isabelle
  imports Complex_Main
begin

section \<open>The libraries the script calls\<close>

text \<open>
  The script \<^verbatim>\<open>generate_visualizations.py\<close> synthesizes three data sets from NumPy's
  process-wide random stream and writes one Plotly chart for each. NumPy, the clock and
  the file system are not code of the repository; they appear here as follows.
  \<^item> A float is a \<^typ>\<open>real\<close>, a Python integer an \<^typ>\<open>int\<close>, a one-dimensional array
    a list and a two-dimensional array a list of rows.
  \<^item> The random module is a record of operations on a generator state \<open>'g\<close>: seeding,
    one standard-normal draw, one integer draw. Nothing is assumed of the draws
    except, where a statement says so, the documented range of \<^verbatim>\<open>randint\<close>.
  \<^item> \<^verbatim>\<open>datetime.now()\<close> reads the next value of a sequence of clock readings
    (microseconds), so successive calls may see different times.
  \<^item> \<^verbatim>\<open>fig.write_html\<close> raises for a path that the world lists as unwritable
    (a missing output directory, a permission) and stores the figure otherwise.
\<close>

datatype error = ValueError | OSError string

record 'g np_random =
  np_seed :: "nat \<Rightarrow> 'g"
  np_randn :: "'g \<Rightarrow> real \<times> 'g"
  np_randint :: "int \<Rightarrow> int \<Rightarrow> 'g \<Rightarrow> int \<times> 'g"

text \<open>\<^verbatim>\<open>randint(low, high)\<close> returns an integer of the half-open interval.\<close>

definition randint_in_range :: "'g np_random \<Rightarrow> bool" where
  "randint_in_range R \<longleftrightarrow>
     (\<forall>low high g. low < high \<longrightarrow>
        low \<le> fst (np_randint R low high g) \<and> fst (np_randint R low high g) < high)"

text \<open>\<^verbatim>\<open>np.random.randn(n)\<close>: \<open>n\<close> successive draws, in order.\<close>

primrec randn :: "'g np_random \<Rightarrow> nat \<Rightarrow> 'g \<Rightarrow> real list \<times> 'g" where
  "randn R 0 g = ([], g)"
| "randn R (Suc n) g =
     (let (x, g1) = np_randn R g; (xs, g2) = randn R n g1 in (x # xs, g2))"

text \<open>\<^verbatim>\<open>np.random.randn(r, c)\<close>: \<open>r\<close> rows of \<open>c\<close> draws, filled row by row.\<close>

primrec randn2 :: "'g np_random \<Rightarrow> nat \<Rightarrow> nat \<Rightarrow> 'g \<Rightarrow> real list list \<times> 'g" where
  "randn2 R 0 c g = ([], g)"
| "randn2 R (Suc r) c g =
     (let (row, g1) = randn R c g; (rows, g2) = randn2 R r c g1 in (row # rows, g2))"

text \<open>\<^verbatim>\<open>np.cumsum\<close>: the running sums.\<close>

primrec cumsum_from :: "real \<Rightarrow> real list \<Rightarrow> real list" where
  "cumsum_from a [] = []"
| "cumsum_from a (x # xs) = (a + x) # cumsum_from (a + x) xs"

definition cumsum :: "real list \<Rightarrow> real list" where
  "cumsum xs = (case xs of [] \<Rightarrow> [] | x # ys \<Rightarrow> x # cumsum_from x ys)"

text \<open>\<^verbatim>\<open>np.arange(n)\<close> as floats, and \<^verbatim>\<open>np.clip\<close> on one element.\<close>

definition arange :: "nat \<Rightarrow> real list" where
  "arange n = map real [0..<n]"

definition clip :: "real \<Rightarrow> real \<Rightarrow> real \<Rightarrow> real" where
  "clip x lo hi = min (max x lo) hi"

text \<open>
  Elementwise sum of two arrays of one shape (the script only adds arrays of equal
  shape), the transpose \<^verbatim>\<open>.T\<close> (\<^const>\<open>transpose\<close> of the list library),
  \<^verbatim>\<open>np.fill_diagonal\<close>, \<^verbatim>\<open>np.abs\<close> and \<^verbatim>\<open>np.max\<close>, which raises on an empty array.
\<close>

definition mat_add :: "real list list \<Rightarrow> real list list \<Rightarrow> real list list" where
  "mat_add A B = map2 (map2 (+)) A B"

definition mat_div :: "real list list \<Rightarrow> real \<Rightarrow> real list list" where
  "mat_div A d = map (map (\<lambda>x. x / d)) A"

definition fill_diagonal :: "real list list \<Rightarrow> real \<Rightarrow> real list list" where
  "fill_diagonal A v = map (\<lambda>(i, row). row[i := v]) (enumerate 0 A)"

definition mat_abs :: "real list list \<Rightarrow> real list list" where
  "mat_abs A = map (map abs) A"

definition np_max :: "real list list \<Rightarrow> error + real" where
  "np_max A = (case concat A of [] \<Rightarrow> Inl ValueError | x # xs \<Rightarrow> Inr (fold max xs x))"

section \<open>The correlation matrix\<close>

definition variables :: "string list" where
  "variables = [''Heart Rate'', ''Blood Pressure'', ''SpO2'', ''Temperature'',
                ''Respiratory Rate'', ''GCS Score'', ''SOFA Score'', ''WBC Count'']"

text \<open>
  Lines 139 to 142 of the script: the matrix before it is normalized.
\<close>

definition correlation_pre :: "'g np_random \<Rightarrow> 'g \<Rightarrow> real list list \<times> 'g" where
  "correlation_pre R g =
     (let n_vars = length variables;
          (m0, g1) = randn2 R n_vars n_vars g;
          m1 = mat_div (mat_add m0 (transpose m0)) 2;
          m2 = fill_diagonal m1 1
      in (m2, g1))"

text \<open>Lines 139 to 145: the matrix the heat map shows.\<close>

definition correlation_matrix ::
  "'g np_random \<Rightarrow> 'g \<Rightarrow> error \<times> 'g + real list list \<times> 'g" where
  "correlation_matrix R g =
     (let (m2, g1) = correlation_pre R g
      in case np_max (mat_abs m2) of
           Inl e \<Rightarrow> Inl (e, g1)
         | Inr mx \<Rightarrow> Inr (mat_div m2 mx, g1))"

text \<open>
  The value of \<^verbatim>\<open>np.max(np.abs(correlation_matrix))\<close> on line 145, as the greatest
  element of the set of absolute entries.
\<close>

definition pre_max :: "'g np_random \<Rightarrow> 'g \<Rightarrow> real" where
  "pre_max R g = Max (set (concat (mat_abs (fst (correlation_pre R g)))))"

section \<open>The world: random stream, clock, files, console\<close>

record row =
  age_group :: string
  outcome :: string
  count :: int

datatype plot =
    Scatter (plot_x: "int list") (plot_y: "real list") (plot_name: string)
  | Bar (plot_rows: "row list")
  | Heatmap (plot_z: "real list list") (plot_labels_x: "string list") (plot_labels_y: "string list")

record figure =
  fig_title :: string
  fig_data :: "plot list"

record 'g world =
  rng :: 'g
  clock :: "nat \<Rightarrow> int"
  reads :: nat
  unwritable :: "string set"
  files :: "string \<rightharpoonup> figure"
  console :: "string list"

type_synonym 'g outcome = "error \<times> 'g world + 'g world"

definition datetime_now :: "'g world \<Rightarrow> int \<times> 'g world" where
  "datetime_now w = (clock w (reads w), w\<lparr>reads := Suc (reads w)\<rparr>)"

text \<open>\<^verbatim>\<open>timedelta(hours=h)\<close> in microseconds.\<close>

definition timedelta_hours :: "int \<Rightarrow> int" where
  "timedelta_hours h = h * 3600000000"

definition write_html :: "figure \<Rightarrow> string \<Rightarrow> 'g world \<Rightarrow> 'g outcome" where
  "write_html fig path w =
     (if path \<in> unwritable w then Inl (OSError path, w)
      else Inr (w\<lparr>files := (files w)(path \<mapsto> fig)\<rparr>))"

definition print :: "string \<Rightarrow> 'g world \<Rightarrow> 'g world" where
  "print s w = w\<lparr>console := console w @ [s]\<rparr>"

text \<open>The check mark that starts each confirmation line, in UTF-8.\<close>

definition check_mark :: string where
  "check_mark = [CHR 0xE2, CHR 0x9C, CHR 0x93]"

section \<open>The time series\<close>

text \<open>
  Line 26: the list comprehension reads the clock once for every index \<open>i\<close> of
  \<^verbatim>\<open>range(hours)\<close> and subtracts \<open>hours - i\<close> hours from that reading.
\<close>

primrec timestamps_loop :: "nat \<Rightarrow> nat list \<Rightarrow> 'g world \<Rightarrow> int list \<times> 'g world" where
  "timestamps_loop hours [] w = ([], w)"
| "timestamps_loop hours (i # is) w =
     (let (t, w1) = datetime_now w;
          (ts, w2) = timestamps_loop hours is w1
      in ((t - timedelta_hours (int hours - int i)) # ts, w2))"

record timeseries =
  timestamps :: "int list"
  heart_rate :: "real list"
  blood_pressure_sys :: "real list"
  spo2 :: "real list"

text \<open>Lines 25 to 32.\<close>

definition timeseries_data :: "'g np_random \<Rightarrow> 'g world \<Rightarrow> timeseries \<times> 'g world" where
  "timeseries_data R w =
     (let hours = 72;
          (ts, w1) = timestamps_loop hours [0..<hours] w;
          (x1, g1) = randn R hours (rng w1);
          hr = map2 (+) (map (\<lambda>c. 70 + c) (cumsum x1))
                 (map (\<lambda>a. 10 * sin a) (map (\<lambda>k. k * 2 * pi / 24) (arange hours)));
          (x2, g2) = randn R hours g1;
          bp = map (\<lambda>c. 120 + c) (cumsum (map (\<lambda>x. x * 0.5) x2));
          (x3, g3) = randn R hours g2;
          s = map (\<lambda>x. 95 + x) (map (\<lambda>x. x * 2) x3);
          s' = map (\<lambda>x. clip x 90 100) s
      in (\<lparr>timestamps = ts, heart_rate = hr, blood_pressure_sys = bp, spo2 = s'\<rparr>,
          w1\<lparr>rng := g3\<rparr>))"

definition timeseries_figure :: "timeseries \<Rightarrow> figure" where
  "timeseries_figure d =
     \<lparr>fig_title = ''ICU Patient Vital Signs - Time Series Analysis'',
      fig_data = [Scatter (timestamps d) (heart_rate d) ''Heart Rate (bpm)'',
                  Scatter (timestamps d) (blood_pressure_sys d) ''Systolic BP (mmHg)'',
                  Scatter (timestamps d) (spo2 d) ''SpO2 (%)'']\<rparr>"

definition generate_timeseries_visualization :: "'g np_random \<Rightarrow> 'g world \<Rightarrow> 'g outcome" where
  "generate_timeseries_visualization R w =
     (let (d, w1) = timeseries_data R w
      in case write_html (timeseries_figure d) ''visualizations/timeseries.html'' w1 of
           Inl e \<Rightarrow> Inl e
         | Inr w2 \<Rightarrow> Inr (print (check_mark @ '' Generated timeseries.html'') w2))"

section \<open>The demographics table\<close>

definition age_groups :: "string list" where
  "age_groups = [''18-30'', ''31-45'', ''46-60'', ''61-75'', ''76+'']"

definition outcomes :: "string list" where
  "outcomes = [''Discharged'', ''Transferred'', ''ICU Stay'']"

text \<open>Lines 94 to 96, the inner loop, and lines 93 to 96, the outer one.\<close>

primrec outcome_loop ::
  "'g np_random \<Rightarrow> string \<Rightarrow> string list \<Rightarrow> row list \<Rightarrow> 'g \<Rightarrow> row list \<times> 'g" where
  "outcome_loop R age [] data g = (data, g)"
| "outcome_loop R age (out # outs) data g =
     (let (c, g1) = np_randint R 10 100 g
      in outcome_loop R age outs
           (data @ [\<lparr>age_group = age, outcome = out, count = c\<rparr>]) g1)"

primrec age_loop ::
  "'g np_random \<Rightarrow> string list \<Rightarrow> row list \<Rightarrow> 'g \<Rightarrow> row list \<times> 'g" where
  "age_loop R [] data g = (data, g)"
| "age_loop R (age # ages) data g =
     (let (data1, g1) = outcome_loop R age outcomes data g
      in age_loop R ages data1 g1)"

definition demographics_data :: "'g np_random \<Rightarrow> 'g \<Rightarrow> row list \<times> 'g" where
  "demographics_data R g = age_loop R age_groups [] g"

definition demographics_figure :: "row list \<Rightarrow> figure" where
  "demographics_figure df =
     \<lparr>fig_title = ''Patient Demographics and Outcomes'', fig_data = [Bar df]\<rparr>"

definition generate_demographics_visualization :: "'g np_random \<Rightarrow> 'g world \<Rightarrow> 'g outcome" where
  "generate_demographics_visualization R w =
     (let (data, g1) = demographics_data R (rng w);
          w1 = w\<lparr>rng := g1\<rparr>
      in case write_html (demographics_figure data) ''visualizations/demographics.html'' w1 of
           Inl e \<Rightarrow> Inl e
         | Inr w2 \<Rightarrow> Inr (print (check_mark @ '' Generated demographics.html'') w2))"

section \<open>The correlation heat map and the driver\<close>

definition correlation_figure :: "real list list \<Rightarrow> figure" where
  "correlation_figure m =
     \<lparr>fig_title = ''Clinical Variables Correlation Matrix'',
      fig_data = [Heatmap m variables variables]\<rparr>"

definition generate_correlation_visualization :: "'g np_random \<Rightarrow> 'g world \<Rightarrow> 'g outcome" where
  "generate_correlation_visualization R w =
     (case correlation_matrix R (rng w) of
        Inl (e, g1) \<Rightarrow> Inl (e, w\<lparr>rng := g1\<rparr>)
      | Inr (m, g1) \<Rightarrow>
          (case write_html (correlation_figure m) ''visualizations/correlation.html''
                  (w\<lparr>rng := g1\<rparr>) of
             Inl e \<Rightarrow> Inl e
           | Inr w2 \<Rightarrow> Inr (print (check_mark @ '' Generated correlation.html'') w2)))"

definition banner :: "'g world \<Rightarrow> 'g world" where
  "banner w =
     print (replicate 50 CHR ''-'')
       (print ''Generating interactive Plotly visualizations...'' w)"

definition footer :: "'g world \<Rightarrow> 'g world" where
  "footer w =
     print ''2. Or deploy to GitHub Pages''
       (print ''1. Open index.html in a web browser''
         (print (CHR 0x0A # ''To view the visualizations:'')
           (print ''All visualizations generated successfully!''
             (print (replicate 50 CHR ''-'') w))))"

definition main :: "'g np_random \<Rightarrow> 'g world \<Rightarrow> 'g outcome" where
  "main R w =
     (case generate_timeseries_visualization R (banner w) of
        Inl e \<Rightarrow> Inl e
      | Inr w1 \<Rightarrow>
          (case generate_demographics_visualization R w1 of
             Inl e \<Rightarrow> Inl e
           | Inr w2 \<Rightarrow>
               (case generate_correlation_visualization R w2 of
                  Inl e \<Rightarrow> Inl e
                | Inr w3 \<Rightarrow> Inr (footer w3))))"

text \<open>
  The script as a process: line 18 seeds the random stream when the module is loaded,
  then line 196 calls the driver.
\<close>

definition script :: "'g np_random \<Rightarrow> 'g world \<Rightarrow> 'g outcome" where
  "script R w = main R (w\<lparr>rng := np_seed R 42\<rparr>)"

text \<open>The (age group, outcome) pair a row of the demographics table is for.\<close>

definition row_key :: "row \<Rightarrow> string \<times> string" where
  "row_key r = (age_group r, outcome r)"

section \<open>Concrete random streams and worlds\<close>

text \<open>
  A generator that replays given draws: its state is the number of draws made so far;
  the \<open>n\<close>-th normal draw is \<open>zs n\<close>, and an integer draw maps \<open>ks n\<close> into the
  requested interval.
\<close>

definition replay :: "(nat \<Rightarrow> real) \<Rightarrow> (nat \<Rightarrow> int) \<Rightarrow> nat np_random" where
  "replay zs ks =
     \<lparr>np_seed = (\<lambda>s. 0),
      np_randn = (\<lambda>g. (zs g, Suc g)),
      np_randint = (\<lambda>low high g. (low + ks g mod (high - low), Suc g))\<rparr>"

text \<open>Normal draws that are 2.0 at positions 1 and 8 and 0.0 elsewhere.\<close>

definition spike_draws :: "nat \<Rightarrow> real" where
  "spike_draws n = (if n = 1 \<or> n = 8 then 2 else 0)"

definition int_draws :: "nat \<Rightarrow> int" where
  "int_draws n = 7 * int n"

definition spike_rng :: "nat np_random" where
  "spike_rng = replay spike_draws int_draws"

text \<open>A clock that advances by one microsecond between two readings.\<close>

definition tick_clock :: "nat \<Rightarrow> int" where
  "tick_clock n = 1793786400000000 + int n"

definition world0 :: "nat world" where
  "world0 = \<lparr>rng = 0, clock = tick_clock, reads = 0, unwritable = {},
             files = Map.empty, console = []\<rparr>"

text \<open>A later start, with a line already on the console.\<close>

definition world1 :: "nat world" where
  "world1 = \<lparr>rng = 5, clock = tick_clock, reads = 1000, unwritable = {},
             files = Map.empty, console = [''$ python generate_visualizations.py'']\<rparr>"

text \<open>A world in which the demographics chart cannot be written.\<close>

definition world2 :: "nat world" where
  "world2 = world0\<lparr>unwritable := {''visualizations/demographics.html''}\<rparr>"

section \<open>Shapes and entries of the arrays\<close>

lemma length_randn: "length (fst (randn R n g)) = n"
  by (induction n arbitrary: g) (simp_all add: split_beta Let_def)

lemma length_randn2: "length (fst (randn2 R r c g)) = r"
  by (induction r arbitrary: g) (simp_all add: split_beta Let_def)

lemma rows_randn2: "row \<in> set (fst (randn2 R r c g)) \<Longrightarrow> length row = c"
  by (induction r arbitrary: g) (auto simp: split_beta Let_def length_randn)

lemma nth_transpose_square:
  assumes "length A = n" and "\<forall>row \<in> set A. length row = n" and "i < n" and "j < n"
  shows "transpose A ! i ! j = A ! j ! i"
proof -
  have "A \<noteq> []" using assms by auto
  have "transpose A = map (\<lambda>i. map (\<lambda>j. A ! j ! i) [0..<length A]) [0..<n]"
    by (rule transpose_rectangle) (use assms in auto)
  then show ?thesis using assms by simp
qed

lemma length_transpose_square:
  assumes "length A = n" and "\<forall>row \<in> set A. length row = n"
  shows "length (transpose A) = n" "\<forall>row \<in> set (transpose A). length row = n"
proof -
  have *: "transpose A = map (\<lambda>i. map (\<lambda>j. A ! j ! i) [0..<length A]) [0..<n]"
    by (rule transpose_rectangle) (use assms in auto)
  show "length (transpose A) = n" by (simp add: *)
  show "\<forall>row \<in> set (transpose A). length row = n" using assms by (auto simp: *)
qed

lemma nth_fill_diagonal:
  "i < length A \<Longrightarrow> j < length (A ! i) \<Longrightarrow>
   fill_diagonal A v ! i ! j = (if i = j then v else A ! i ! j)"
  by (auto simp: fill_diagonal_def nth_enumerate_eq nth_list_update)

lemma length_fill_diagonal: "length (fill_diagonal A v) = length A"
  by (simp add: fill_diagonal_def)

lemma length_nth_fill_diagonal: "i < length A \<Longrightarrow> length (fill_diagonal A v ! i) = length (A ! i)"
  by (simp add: fill_diagonal_def nth_enumerate_eq)

lemma np_max_Inr:
  "concat A \<noteq> [] \<Longrightarrow> np_max A = Inr (Max (set (concat A)))"
  by (cases "concat A") (simp_all add: np_max_def Max.set_eq_fold [symmetric])


lemma length_variables: "length variables = 8"
  by (simp add: variables_def)

lemma length_mat_add: "length (mat_add A B) = min (length A) (length B)"
  by (simp add: mat_add_def)

lemma nth_mat_add:
  "i < length A \<Longrightarrow> i < length B \<Longrightarrow> j < length (A ! i) \<Longrightarrow> j < length (B ! i) \<Longrightarrow>
   mat_add A B ! i ! j = A ! i ! j + B ! i ! j"
  by (simp add: mat_add_def)

lemma length_nth_mat_add:
  "i < length A \<Longrightarrow> i < length B \<Longrightarrow>
   length (mat_add A B ! i) = min (length (A ! i)) (length (B ! i))"
  by (simp add: mat_add_def)

lemma length_mat_div: "length (mat_div A d) = length A"
  by (simp add: mat_div_def)

lemma nth_mat_div: "i < length A \<Longrightarrow> mat_div A d ! i = map (\<lambda>x. x / d) (A ! i)"
  by (simp add: mat_div_def)

lemma snd_correlation_pre: "snd (correlation_pre R g) = snd (randn2 R 8 8 g)"
  by (simp add: correlation_pre_def length_variables split_beta Let_def)

lemma length_correlation_pre: "length (fst (correlation_pre R g)) = 8"
  by (simp add: correlation_pre_def length_variables split_beta Let_def
      length_fill_diagonal length_mat_div length_mat_add length_randn2
      length_transpose_square [where n = 8] rows_randn2)

lemma correlation_pre_entries:
  assumes "i < 8" and "j < 8"
  shows "length (fst (correlation_pre R g) ! i) = 8"
    and "fst (correlation_pre R g) ! i ! j =
           (if i = j then 1
            else (fst (randn2 R 8 8 g) ! i ! j + fst (randn2 R 8 8 g) ! j ! i) / 2)"
proof -
  define m0 where "m0 = fst (randn2 R 8 8 g)"
  define m1 where "m1 = mat_div (mat_add m0 (transpose m0)) 2"
  have len0: "length m0 = 8" and rows0: "\<forall>row \<in> set m0. length row = 8"
    by (auto simp: m0_def length_randn2 rows_randn2)
  have lenT: "length (transpose m0) = 8" and rowsT: "\<forall>row \<in> set (transpose m0). length row = 8"
    using length_transpose_square [OF len0 rows0] by auto
  have row0: "length (m0 ! k) = 8" if "k < 8" for k
    using rows0 len0 that by simp
  have rowT: "length (transpose m0 ! k) = 8" if "k < 8" for k
    using rowsT lenT that by simp
  have pre: "fst (correlation_pre R g) = fill_diagonal m1 1"
    by (simp add: correlation_pre_def length_variables split_beta Let_def m0_def m1_def)
  have len1: "length m1 = 8"
    by (simp add: m1_def length_mat_div length_mat_add len0 lenT)
  have row1: "length (m1 ! i) = 8"
    using assms by (simp add: m1_def nth_mat_div length_mat_add length_nth_mat_add len0 lenT row0 rowT)
  have ent1: "m1 ! i ! j = (m0 ! i ! j + m0 ! j ! i) / 2"
    using assms
    by (simp add: m1_def nth_mat_div length_mat_add length_nth_mat_add nth_mat_add
        len0 lenT row0 rowT nth_transpose_square [OF len0 rows0])
  show "length (fst (correlation_pre R g) ! i) = 8"
    using assms by (simp add: pre length_nth_fill_diagonal len1 row1)
  show "fst (correlation_pre R g) ! i ! j =
           (if i = j then 1
            else (fst (randn2 R 8 8 g) ! i ! j + fst (randn2 R 8 8 g) ! j ! i) / 2)"
    using assms by (simp add: pre nth_fill_diagonal len1 row1 ent1 m0_def)
qed

lemma concat_mem_iff:
  "x \<in> set (concat A) \<longleftrightarrow> (\<exists>i < length A. \<exists>j < length (A ! i). x = A ! i ! j)"
proof
  assume "x \<in> set (concat A)"
  then obtain row where "row \<in> set A" and "x \<in> set row" by auto
  then obtain i j where "i < length A" "A ! i = row" "j < length row" "row ! j = x"
    by (metis in_set_conv_nth)
  then show "\<exists>i < length A. \<exists>j < length (A ! i). x = A ! i ! j" by auto
next
  assume "\<exists>i < length A. \<exists>j < length (A ! i). x = A ! i ! j"
  then obtain i j where "i < length A" "j < length (A ! i)" "x = A ! i ! j" by blast
  then have "A ! i \<in> set A" and "x \<in> set (A ! i)" by simp_all
  then show "x \<in> set (concat A)" by auto
qed

lemma mat_abs_mem_iff:
  "x \<in> set (concat (mat_abs A)) \<longleftrightarrow> (\<exists>i < length A. \<exists>j < length (A ! i). x = \<bar>A ! i ! j\<bar>)"
  unfolding concat_mem_iff by (simp add: mat_abs_def cong: conj_cong)

lemma abs_pre_mem:
  "x \<in> set (concat (mat_abs (fst (correlation_pre R g)))) \<longleftrightarrow>
   (\<exists>i < 8. \<exists>j < 8. x = \<bar>fst (correlation_pre R g) ! i ! j\<bar>)"
  unfolding mat_abs_mem_iff by (simp add: length_correlation_pre correlation_pre_entries(1) cong: conj_cong)

lemma one_mem_pre: "1 \<in> set (concat (mat_abs (fst (correlation_pre R g))))"
proof -
  have "fst (correlation_pre R g) ! 0 ! 0 = 1"
    by (simp add: correlation_pre_entries(2))
  then have "(1::real) = \<bar>fst (correlation_pre R g) ! 0 ! 0\<bar>" by simp
  then show ?thesis unfolding abs_pre_mem by (intro exI [of _ 0] conjI) (simp_all only: zero_less_numeral)
qed

lemma pre_max_ge_1: "1 \<le> pre_max R g"
  unfolding pre_max_def by (rule Max_ge) (simp_all only: one_mem_pre List.finite_set)

lemma pre_max_ge:
  "i < 8 \<Longrightarrow> j < 8 \<Longrightarrow> \<bar>fst (correlation_pre R g) ! i ! j\<bar> \<le> pre_max R g"
  unfolding pre_max_def by (rule Max_ge, simp only: List.finite_set, unfold abs_pre_mem, blast)

lemma pre_max_attained:
  "\<exists>i < 8. \<exists>j < 8. \<bar>fst (correlation_pre R g) ! i ! j\<bar> = pre_max R g"
proof -
  have "set (concat (mat_abs (fst (correlation_pre R g)))) \<noteq> {}"
    using one_mem_pre [of R g] by (metis empty_iff)
  then have "pre_max R g \<in> set (concat (mat_abs (fst (correlation_pre R g))))"
    unfolding pre_max_def by (intro Max_in) (rule List.finite_set)
  then show ?thesis unfolding abs_pre_mem by metis
qed

lemma np_max_pre: "np_max (mat_abs (fst (correlation_pre R g))) = Inr (pre_max R g)"
proof -
  have "concat (mat_abs (fst (correlation_pre R g))) \<noteq> []"
    using one_mem_pre [of R g] by (metis empty_iff empty_set)
  then show ?thesis unfolding pre_max_def by (rule np_max_Inr)
qed

lemma correlation_matrix_eq:
  "correlation_matrix R g =
     Inr (mat_div (fst (correlation_pre R g)) (pre_max R g), snd (randn2 R 8 8 g))"
  by (simp add: correlation_matrix_def split_beta np_max_pre snd_correlation_pre)

lemma correlation_matrix_entry:
  assumes "i < 8" and "j < 8"
  shows "mat_div (fst (correlation_pre R g)) (pre_max R g) ! i ! j =
           fst (correlation_pre R g) ! i ! j / pre_max R g"
    and "length (mat_div (fst (correlation_pre R g)) (pre_max R g) ! i) = 8"
  using assms
  by (simp_all add: nth_mat_div length_correlation_pre correlation_pre_entries(1))

section \<open>The correlation matrix: claims\<close>

text \<open>
  C1 says that every diagonal entry of the matrix the correlation generator produces
  equals 1. Line 142 sets the diagonal to 1 (its comment: "Diagonal is 1"), but line 145
  then divides every entry, the diagonal too, by the greatest absolute entry. With the
  normal draws 2.0 at positions (0,1) and (1,0) and 0.0 elsewhere, the symmetrized
  entry is 2, and each diagonal entry of the result is 1/2.
\<close>

theorem correlation_diagonal_spike:
  "correlation_matrix spike_rng 0 =
     Inr ([[1 / 2, 1, 0, 0, 0, 0, 0, 0],
           [1, 1 / 2, 0, 0, 0, 0, 0, 0],
           [0, 0, 1 / 2, 0, 0, 0, 0, 0],
           [0, 0, 0, 1 / 2, 0, 0, 0, 0],
           [0, 0, 0, 0, 1 / 2, 0, 0, 0],
           [0, 0, 0, 0, 0, 1 / 2, 0, 0],
           [0, 0, 0, 0, 0, 0, 1 / 2, 0],
           [0, 0, 0, 0, 0, 0, 0, 1 / 2]], 64)"
  by code_simp

text \<open>
  C5: the matrix the correlation generator produces is symmetric, whatever the draws:
  the generator returns a matrix \<open>M\<close>, and \<open>M[i][j] = M[j][i]\<close> for all \<open>i\<close>, \<open>j\<close> below 8.
\<close>

theorem correlation_symmetric:
  "\<exists>M g'. correlation_matrix R g = Inr (M, g') \<and>
     (\<forall>i<8. \<forall>j<8. M ! i ! j = M ! j ! i)"
proof (intro exI conjI allI impI)
  show "correlation_matrix R g =
          Inr (mat_div (fst (correlation_pre R g)) (pre_max R g), snd (randn2 R 8 8 g))"
    by (rule correlation_matrix_eq)
next
  fix i j :: nat
  assume "i < 8" and "j < 8"
  then show "mat_div (fst (correlation_pre R g)) (pre_max R g) ! i ! j =
             mat_div (fst (correlation_pre R g)) (pre_max R g) ! j ! i"
    by (simp add: correlation_matrix_entry(1) correlation_pre_entries(2) add.commute)
qed

theorem correlation_symmetric_witness:
  "\<exists>M g'. correlation_matrix spike_rng 0 = Inr (M, g') \<and>
     (0::nat) < 8 \<and> (1::nat) < 8 \<and> M ! 0 ! 1 = M ! 1 ! 0"
proof -
  obtain M g' where run: "correlation_matrix spike_rng 0 = Inr (M, g')"
    and sym: "\<forall>i<8. \<forall>j<8. M ! i ! j = M ! j ! i"
    using correlation_symmetric [of spike_rng 0] by blast
  have "M ! 0 ! 1 = M ! 1 ! 0"
    using sym by simp
  with run show ?thesis by simp
qed

text \<open>
  C6: the matrix the correlation generator produces has exactly 8 rows of 8 entries,
  and after the normalization every entry lies in \<open>[-1, 1]\<close>.
\<close>

theorem correlation_shape_and_range:
  "\<exists>M g'. correlation_matrix R g = Inr (M, g') \<and> length M = 8 \<and>
     (\<forall>i<8. length (M ! i) = 8) \<and>
     (\<forall>i<8. \<forall>j<8. - 1 \<le> M ! i ! j \<and> M ! i ! j \<le> 1)"
proof (intro exI conjI allI impI)
  show "correlation_matrix R g =
          Inr (mat_div (fst (correlation_pre R g)) (pre_max R g), snd (randn2 R 8 8 g))"
    by (rule correlation_matrix_eq)
  show "length (mat_div (fst (correlation_pre R g)) (pre_max R g)) = 8"
    by (simp add: length_mat_div length_correlation_pre)
next
  fix i :: nat
  assume "i < 8"
  then show "length (mat_div (fst (correlation_pre R g)) (pre_max R g) ! i) = 8"
    by (simp add: correlation_matrix_entry(2))
next
  fix i j :: nat
  assume ij: "i < 8" "j < 8"
  have pos: "0 < pre_max R g"
    using pre_max_ge_1 [of R g] by simp
  have "\<bar>fst (correlation_pre R g) ! i ! j\<bar> \<le> pre_max R g"
    using ij by (rule pre_max_ge)
  then have "\<bar>fst (correlation_pre R g) ! i ! j / pre_max R g\<bar> \<le> 1"
    using pos by simp
  then have "\<bar>mat_div (fst (correlation_pre R g)) (pre_max R g) ! i ! j\<bar> \<le> 1"
    using ij by (simp add: correlation_matrix_entry(1))
  then show "- 1 \<le> mat_div (fst (correlation_pre R g)) (pre_max R g) ! i ! j"
    and "mat_div (fst (correlation_pre R g)) (pre_max R g) ! i ! j \<le> 1"
    by simp_all
qed

theorem correlation_shape_and_range_witness:
  "\<exists>M g'. correlation_matrix spike_rng 0 = Inr (M, g') \<and> length M = 8 \<and>
     (0::nat) < 8 \<and> (1::nat) < 8 \<and> length (M ! 0) = 8 \<and>
     - 1 \<le> M ! 0 ! 1 \<and> M ! 0 ! 1 \<le> 1"
proof -
  obtain M g' where run: "correlation_matrix spike_rng 0 = Inr (M, g')"
    and len: "length M = 8" and rows: "\<forall>i<8. length (M ! i) = 8"
    and range: "\<forall>i<8. \<forall>j<8. - 1 \<le> M ! i ! j \<and> M ! i ! j \<le> 1"
    using correlation_shape_and_range [of spike_rng 0] by blast
  have "length (M ! 0) = 8"
    using rows by simp
  moreover have "- 1 \<le> M ! 0 ! 1 \<and> M ! 0 ! 1 \<le> 1"
    using range by simp
  ultimately show ?thesis
    using run len by simp
qed

text \<open>
  C10: in the matrix the correlation generator produces, the eight diagonal entries are
  equal to one another; each is 1 divided by the greatest absolute value of the matrix
  before the normalization (the value \<^verbatim>\<open>np.max\<close> returns on line 145, which bounds every
  absolute entry of that matrix and is one of them), hence at most 1; and some entry of
  the final matrix has absolute value exactly 1.
\<close>

theorem correlation_diagonal_scaled:
  "\<exists>M g'. correlation_matrix R g = Inr (M, g') \<and>
     np_max (mat_abs (fst (correlation_pre R g))) = Inr (pre_max R g) \<and>
     (\<forall>i<8. \<forall>j<8. \<bar>fst (correlation_pre R g) ! i ! j\<bar> \<le> pre_max R g) \<and>
     (\<exists>i<8. \<exists>j<8. \<bar>fst (correlation_pre R g) ! i ! j\<bar> = pre_max R g) \<and>
     (\<forall>i<8. M ! i ! i = 1 / pre_max R g) \<and>
     (\<forall>i<8. \<forall>j<8. M ! i ! i = M ! j ! j) \<and>
     1 / pre_max R g \<le> 1 \<and>
     (\<exists>i<8. \<exists>j<8. \<bar>M ! i ! j\<bar> = 1)"
proof -
  let ?P = "fst (correlation_pre R g)"
  let ?M = "mat_div ?P (pre_max R g)"
  have pos: "0 < pre_max R g"
    using pre_max_ge_1 [of R g] by simp
  have eq: "correlation_matrix R g = Inr (?M, snd (randn2 R 8 8 g))"
    by (rule correlation_matrix_eq)
  have bound: "\<forall>i<8. \<forall>j<8. \<bar>?P ! i ! j\<bar> \<le> pre_max R g"
    by (simp add: pre_max_ge)
  have diag: "\<forall>i<8. ?M ! i ! i = 1 / pre_max R g"
    by (simp add: correlation_matrix_entry(1) correlation_pre_entries(2))
  then have same: "\<forall>i<8. \<forall>j<8. ?M ! i ! i = ?M ! j ! j"
    by simp
  have le: "1 / pre_max R g \<le> 1"
    using pre_max_ge_1 [of R g] by simp
  obtain i j where ij: "i < 8" "j < 8" and att: "\<bar>?P ! i ! j\<bar> = pre_max R g"
    using pre_max_attained [of R g] by blast
  have "\<bar>?M ! i ! j\<bar> = \<bar>?P ! i ! j\<bar> / pre_max R g"
    using ij pos by (simp add: correlation_matrix_entry(1))
  also have "\<dots> = 1"
    using att pos by simp
  finally have one: "\<exists>i<8. \<exists>j<8. \<bar>?M ! i ! j\<bar> = 1"
    using ij by blast
  show ?thesis
    by (rule exI [of _ ?M], rule exI [of _ "snd (randn2 R 8 8 g)"])
      (intro conjI eq np_max_pre bound pre_max_attained diag same le one)
qed

theorem correlation_diagonal_scaled_witness:
  "\<exists>M g'. correlation_matrix spike_rng 0 = Inr (M, g') \<and>
     (0::nat) < 8 \<and> (3::nat) < 8 \<and>
     \<bar>fst (correlation_pre spike_rng 0) ! 0 ! 3\<bar> \<le> pre_max spike_rng 0 \<and>
     M ! 3 ! 3 = 1 / pre_max spike_rng 0 \<and> M ! 0 ! 0 = M ! 3 ! 3"
proof -
  obtain M g' where run: "correlation_matrix spike_rng 0 = Inr (M, g')"
    and bound: "\<forall>i<8. \<forall>j<8. \<bar>fst (correlation_pre spike_rng 0) ! i ! j\<bar> \<le> pre_max spike_rng 0"
    and diag: "\<forall>i<8. M ! i ! i = 1 / pre_max spike_rng 0"
    and same: "\<forall>i<8. \<forall>j<8. M ! i ! i = M ! j ! j"
    using correlation_diagonal_scaled [of spike_rng 0] by blast
  have "\<bar>fst (correlation_pre spike_rng 0) ! 0 ! 3\<bar> \<le> pre_max spike_rng 0"
    using bound by simp
  moreover have "M ! 3 ! 3 = 1 / pre_max spike_rng 0"
    using diag by simp
  moreover have "M ! 0 ! 0 = M ! 3 ! 3"
    using same by simp
  ultimately show ?thesis
    using run by simp
qed

section \<open>The time series: lemmas\<close>

lemma snd_timestamps_loop:
  "snd (timestamps_loop h is w) = w\<lparr>reads := reads w + length is\<rparr>"
  by (induction "is" arbitrary: w) (simp_all add: split_beta Let_def datetime_now_def)

lemma length_timestamps_loop: "length (fst (timestamps_loop h is w)) = length is"
  by (induction "is" arbitrary: w) (simp_all add: split_beta Let_def)

lemma nth_timestamps_loop:
  "k < length is \<Longrightarrow>
   fst (timestamps_loop h is w) ! k =
     clock w (reads w + k) - timedelta_hours (int h - int (is ! k))"
proof (induction "is" arbitrary: w k)
  case Nil
  then show ?case by simp
next
  case (Cons i "is")
  show ?case
  proof (cases k)
    case 0
    then show ?thesis by (simp add: split_beta Let_def datetime_now_def)
  next
    case (Suc k')
    with Cons.prems have "k' < length is" by simp
    from Cons.IH [OF this, of "snd (datetime_now w)"] Suc
    show ?thesis by (simp add: split_beta Let_def datetime_now_def)
  qed
qed

lemma length_cumsum_from: "length (cumsum_from a xs) = length xs"
  by (induction xs arbitrary: a) simp_all

lemma length_cumsum: "length (cumsum xs) = length xs"
  by (cases xs) (simp_all add: cumsum_def length_cumsum_from)

lemma nth_cumsum_from:
  "i < length xs \<Longrightarrow> cumsum_from a xs ! i = a + sum_list (take (Suc i) xs)"
proof (induction xs arbitrary: a i)
  case Nil
  then show ?case by simp
next
  case (Cons x xs)
  then show ?case by (cases i) (simp_all add: add.assoc)
qed

lemma nth_cumsum: "i < length xs \<Longrightarrow> cumsum xs ! i = sum_list (take (Suc i) xs)"
proof (cases xs)
  case Nil
  assume "i < length xs"
  with Nil show ?thesis by simp
next
  case (Cons x ys)
  assume "i < length xs"
  with Cons show ?thesis
    by (cases i) (simp_all add: cumsum_def nth_cumsum_from)
qed

lemma clip_range: "lo \<le> hi \<Longrightarrow> lo \<le> clip x lo hi \<and> clip x lo hi \<le> hi"
  by (simp add: clip_def)

lemma timestamps_timeseries:
  "timestamps (fst (timeseries_data R w)) = fst (timestamps_loop 72 [0..<72] w)"
  by (simp add: timeseries_data_def Let_def split_beta)

lemma heart_rate_timeseries:
  "heart_rate (fst (timeseries_data R w)) =
     map2 (+) (map (\<lambda>c. 70 + c) (cumsum (fst (randn R 72 (rng w)))))
       (map (\<lambda>a. 10 * sin a) (map (\<lambda>k. k * 2 * pi / 24) (arange 72)))"
  by (simp add: timeseries_data_def Let_def split_beta snd_timestamps_loop)

lemma spo2_timeseries:
  "spo2 (fst (timeseries_data R w)) =
     map (\<lambda>x. clip x 90 100)
       (map (\<lambda>x. 95 + x)
         (map (\<lambda>x. x * 2)
           (fst (randn R 72 (snd (randn R 72 (snd (randn R 72 (rng w)))))))))"
  by (simp add: timeseries_data_def Let_def split_beta snd_timestamps_loop)

lemma snd_timeseries:
  "snd (timeseries_data R w) =
     w\<lparr>reads := reads w + 72,
       rng := snd (randn R 72 (snd (randn R 72 (snd (randn R 72 (rng w))))))\<rparr>"
  by (simp add: timeseries_data_def Let_def split_beta snd_timestamps_loop)

lemma length_timestamps_timeseries:
  "length (timestamps (fst (timeseries_data R w))) = 72"
  by (simp add: timestamps_timeseries length_timestamps_loop)

lemma nth_timestamps_timeseries:
  "i < 72 \<Longrightarrow>
   timestamps (fst (timeseries_data R w)) ! i =
     clock w (reads w + i) - timedelta_hours (72 - int i)"
  by (simp add: timestamps_timeseries nth_timestamps_loop)

lemma last_timestamps_timeseries:
  "last (timestamps (fst (timeseries_data R w))) = clock w (reads w + 71) - 3600000000"
proof -
  let ?ts = "timestamps (fst (timeseries_data R w))"
  have "?ts \<noteq> []"
    using length_timestamps_timeseries [of R w] by auto
  then have "last ?ts = ?ts ! 71"
    by (simp add: last_conv_nth length_timestamps_timeseries)
  also have "\<dots> = clock w (reads w + 71) - 3600000000"
    by (simp add: nth_timestamps_timeseries timedelta_hours_def)
  finally show ?thesis .
qed

section \<open>The time series: claims\<close>

text \<open>
  C3: the oxygen-saturation sequence of the time-series generator has length exactly 72,
  and each of its 72 values lies in \<open>[90, 100]\<close>, bounds included.
\<close>

theorem spo2_length_and_range:
  "length (spo2 (fst (timeseries_data R w))) = 72 \<and>
   (\<forall>i<72. 90 \<le> spo2 (fst (timeseries_data R w)) ! i \<and>
            spo2 (fst (timeseries_data R w)) ! i \<le> 100)"
  by (simp add: spo2_timeseries length_randn clip_range)

theorem spo2_length_and_range_witness:
  "length (spo2 (fst (timeseries_data spike_rng world0))) = 72 \<and> (5::nat) < 72 \<and>
   90 \<le> spo2 (fst (timeseries_data spike_rng world0)) ! 5 \<and>
   spo2 (fst (timeseries_data spike_rng world0)) ! 5 \<le> 100"
  using spo2_length_and_range [of spike_rng world0] by simp

text \<open>
  C7: for every index \<open>i\<close> below 72, the heart-rate value at \<open>i\<close> is the baseline 70,
  plus the sum of the first \<open>i + 1\<close> increments (the first 72 normal draws of the
  stream), plus 10 times the sine of \<open>i * 2 * pi / 24\<close>; that sinusoid repeats after 24
  indices and never exceeds 10 in absolute value.
\<close>

theorem heart_rate_formula:
  assumes "i < 72"
  shows "length (heart_rate (fst (timeseries_data R w))) = 72 \<and>
         heart_rate (fst (timeseries_data R w)) ! i =
           70 + sum_list (take (i + 1) (fst (randn R 72 (rng w))))
              + 10 * sin (real i * 2 * pi / 24) \<and>
         10 * sin (real (i + 24) * 2 * pi / 24) = 10 * sin (real i * 2 * pi / 24) \<and>
         \<bar>10 * sin (real i * 2 * pi / 24)\<bar> \<le> 10"
proof (intro conjI)
  show "length (heart_rate (fst (timeseries_data R w))) = 72"
    by (simp add: heart_rate_timeseries length_cumsum length_randn arange_def)
  show "heart_rate (fst (timeseries_data R w)) ! i =
           70 + sum_list (take (i + 1) (fst (randn R 72 (rng w))))
              + 10 * sin (real i * 2 * pi / 24)"
    using assms
    by (simp add: heart_rate_timeseries length_cumsum length_randn arange_def nth_cumsum
        mult.commute)
  have "real (i + 24) * 2 * pi / 24 = real i * 2 * pi / 24 + 2 * pi"
    by (simp add: field_simps)
  then have "sin (real (i + 24) * 2 * pi / 24) = sin (real i * 2 * pi / 24 + 2 * pi)"
    by (rule arg_cong)
  also have "\<dots> = sin (real i * 2 * pi / 24)"
    by (rule sin_periodic)
  finally show "10 * sin (real (i + 24) * 2 * pi / 24) = 10 * sin (real i * 2 * pi / 24)"
    by (rule arg_cong)
  show "\<bar>10 * sin (real i * 2 * pi / 24)\<bar> \<le> 10"
    by (simp add: abs_mult)
qed

theorem heart_rate_formula_witness:
  "(6::nat) < 72 \<and>
   heart_rate (fst (timeseries_data spike_rng world0)) ! 6 =
     70 + sum_list (take (6 + 1) (fst (randn spike_rng 72 (rng world0))))
        + 10 * sin (real 6 * 2 * pi / 24)"
  using heart_rate_formula [of 6 spike_rng world0] by simp

text \<open>
  C8 says that the last timestamp equals the current time at generation. The code
  subtracts \<open>hours - i\<close> hours for \<open>i\<close> from 0 to 71, that is 72 down to 1 hours, so the
  last timestamp is one hour before the clock reading taken for it. With a clock that
  shows \<open>tick_clock n\<close> at its \<open>n\<close>-th reading, the last timestamp differs from reading
  71, the one taken for it.
\<close>

theorem last_timestamp_not_now:
  "last (timestamps (fst (timeseries_data spike_rng world0))) = clock world0 71 - 3600000000 \<and>
   last (timestamps (fst (timeseries_data spike_rng world0))) \<noteq> clock world0 71"
  by (simp add: last_timestamps_timeseries world0_def)

text \<open>
  C8, amended: the timestamp sequence has 72 points; point \<open>i\<close> is the clock reading
  taken for it minus \<open>72 - i\<close> hours, so the last element is one hour before the current
  time read for it; the generator reads the clock 72 times.
\<close>

theorem timestamps_window:
  "length (timestamps (fst (timeseries_data R w))) = 72 \<and>
   (\<forall>i<72. timestamps (fst (timeseries_data R w)) ! i =
             clock w (reads w + i) - timedelta_hours (72 - int i)) \<and>
   last (timestamps (fst (timeseries_data R w))) = clock w (reads w + 71) - 3600000000 \<and>
   reads (snd (timeseries_data R w)) = reads w + 72"
  by (simp add: length_timestamps_timeseries nth_timestamps_timeseries
      last_timestamps_timeseries snd_timeseries)

theorem timestamps_window_witness:
  "length (timestamps (fst (timeseries_data spike_rng world0))) = 72 \<and> (0::nat) < 72 \<and>
   timestamps (fst (timeseries_data spike_rng world0)) ! 0 = 1793786400000000 - 259200000000 \<and>
   last (timestamps (fst (timeseries_data spike_rng world0))) = 1793786400000071 - 3600000000"
  using timestamps_window [of spike_rng world0]
  by (simp add: world0_def tick_clock_def timedelta_hours_def)

section \<open>The demographics table: lemmas\<close>

lemma outcome_loop_keys:
  "map row_key (fst (outcome_loop R age outs data g)) =
     map row_key data @ map (Pair age) outs"
  by (induction outs arbitrary: data g) (simp_all add: split_beta Let_def row_key_def)

lemma outcome_loop_counts:
  assumes "randint_in_range R" and "\<forall>r \<in> set data. 10 \<le> count r \<and> count r < 100"
  shows "\<forall>r \<in> set (fst (outcome_loop R age outs data g)). 10 \<le> count r \<and> count r < 100"
  using assms(2)
proof (induction outs arbitrary: data g)
  case Nil
  then show ?case by simp
next
  case (Cons out outs)
  have "10 \<le> fst (np_randint R 10 100 g) \<and> fst (np_randint R 10 100 g) < 100"
    using assms(1) by (simp add: randint_in_range_def)
  with Cons.prems
  have "\<forall>r \<in> set (data @ [\<lparr>age_group = age, outcome = out,
            count = fst (np_randint R 10 100 g)\<rparr>]). 10 \<le> count r \<and> count r < 100"
    by simp
  from Cons.IH [OF this] show ?case
    by (simp add: split_beta Let_def)
qed

lemma age_loop_keys:
  "map row_key (fst (age_loop R ages data g)) =
     map row_key data @ List.product ages outcomes"
  by (induction ages arbitrary: data g) (simp_all add: split_beta Let_def outcome_loop_keys)

lemma age_loop_counts:
  assumes "randint_in_range R" and "\<forall>r \<in> set data. 10 \<le> count r \<and> count r < 100"
  shows "\<forall>r \<in> set (fst (age_loop R ages data g)). 10 \<le> count r \<and> count r < 100"
  using assms(2)
proof (induction ages arbitrary: data g)
  case Nil
  then show ?case by simp
next
  case (Cons age ages)
  have "\<forall>r \<in> set (fst (outcome_loop R age outcomes data g)). 10 \<le> count r \<and> count r < 100"
    using assms(1) Cons.prems by (rule outcome_loop_counts)
  from Cons.IH [OF this] show ?case
    by (simp add: split_beta Let_def)
qed

lemma length_age_groups: "length age_groups = 5"
  by (simp add: age_groups_def)

lemma length_outcomes: "length outcomes = 3"
  by (simp add: outcomes_def)

lemma distinct_age_groups: "distinct age_groups"
  by (simp add: age_groups_def)

lemma distinct_outcomes: "distinct outcomes"
  by (simp add: outcomes_def)

lemma distinct_pairs: "distinct (List.product age_groups outcomes)"
  using distinct_age_groups distinct_outcomes by (rule distinct_product)

lemma length_pairs: "length (List.product age_groups outcomes) = 15"
  by (simp only: length_product length_age_groups length_outcomes)

lemma replay_in_range: "randint_in_range (replay zs ks)"
proof -
  have "low \<le> low + ks g mod (high - low) \<and> low + ks g mod (high - low) < high"
    if "low < high" for low high :: int and g
  proof -
    from that have "0 < high - low" by simp
    then have "0 \<le> ks g mod (high - low) \<and> ks g mod (high - low) < high - low"
      by simp
    then show ?thesis by linarith
  qed
  then show ?thesis
    by (simp add: randint_in_range_def replay_def)
qed

section \<open>The demographics table: claims\<close>

text \<open>
  C4: given that \<^verbatim>\<open>randint(10, 100)\<close> returns an integer of \<open>[10, 100)\<close>, the
  demographics generator produces exactly 15 rows; the (age group, outcome) pairs of
  the rows, in order, are the pairs of the 5 age groups with the 3 outcomes, each
  exactly once; and every count is at least 10 and below 100.
\<close>

theorem demographics_rows:
  assumes "randint_in_range R"
  shows "length (fst (demographics_data R g)) = 15 \<and>
         length age_groups = 5 \<and> length outcomes = 3 \<and>
         map row_key (fst (demographics_data R g)) = List.product age_groups outcomes \<and>
         distinct (map row_key (fst (demographics_data R g))) \<and>
         (\<forall>r \<in> set (fst (demographics_data R g)). 10 \<le> count r \<and> count r < 100)"
proof -
  have keys: "map row_key (fst (demographics_data R g)) = List.product age_groups outcomes"
    by (simp add: demographics_data_def age_loop_keys)
  have "length (map row_key (fst (demographics_data R g))) = 15"
    unfolding keys by (rule length_pairs)
  then have len: "length (fst (demographics_data R g)) = 15"
    by (simp only: length_map)
  have dist: "distinct (map row_key (fst (demographics_data R g)))"
    unfolding keys by (rule distinct_pairs)
  have counts: "\<forall>r \<in> set (fst (demographics_data R g)). 10 \<le> count r \<and> count r < 100"
    unfolding demographics_data_def by (rule age_loop_counts [OF assms]) simp
  show ?thesis
    by (intro conjI len length_age_groups length_outcomes keys dist counts)
qed

theorem demographics_rows_witness:
  "length (fst (demographics_data spike_rng 0)) = 15 \<and>
   map row_key (fst (demographics_data spike_rng 0)) = List.product age_groups outcomes \<and>
   10 \<le> count (fst (demographics_data spike_rng 0) ! 13) \<and>
   count (fst (demographics_data spike_rng 0) ! 13) < 100"
proof -
  have r: "randint_in_range spike_rng"
    unfolding spike_rng_def by (rule replay_in_range)
  from demographics_rows [OF r, of 0] have
    len: "length (fst (demographics_data spike_rng 0)) = 15" and
    keys: "map row_key (fst (demographics_data spike_rng 0)) = List.product age_groups outcomes" and
    counts: "\<forall>r \<in> set (fst (demographics_data spike_rng 0)). 10 \<le> count r \<and> count r < 100"
    by blast+
  have "fst (demographics_data spike_rng 0) ! 13 \<in> set (fst (demographics_data spike_rng 0))"
    by (rule nth_mem) (simp add: len)
  with counts have "10 \<le> count (fst (demographics_data spike_rng 0) ! 13) \<and>
      count (fst (demographics_data spike_rng 0) ! 13) < 100"
    by blast
  with len keys show ?thesis by blast
qed

section \<open>The generators and the driver: lemmas\<close>

lemma blood_pressure_timeseries:
  "blood_pressure_sys (fst (timeseries_data R w)) =
     map (\<lambda>c. 120 + c) (cumsum (map (\<lambda>x. x * 0.5) (fst (randn R 72 (snd (randn R 72 (rng w)))))))"
  by (simp add: timeseries_data_def Let_def split_beta snd_timestamps_loop)

lemma timeseries_eq:
  "generate_timeseries_visualization R w =
     (if ''visualizations/timeseries.html'' \<in> unwritable w
      then Inl (OSError ''visualizations/timeseries.html'', snd (timeseries_data R w))
      else Inr (print (check_mark @ '' Generated timeseries.html'')
             ((snd (timeseries_data R w))
                \<lparr>files := (files w)(''visualizations/timeseries.html'' \<mapsto>
                    timeseries_figure (fst (timeseries_data R w)))\<rparr>)))"
  by (simp add: generate_timeseries_visualization_def split_beta write_html_def snd_timeseries)

lemma demographics_eq:
  "generate_demographics_visualization R w =
     (if ''visualizations/demographics.html'' \<in> unwritable w
      then Inl (OSError ''visualizations/demographics.html'',
                w\<lparr>rng := snd (demographics_data R (rng w))\<rparr>)
      else Inr (print (check_mark @ '' Generated demographics.html'')
             (w\<lparr>rng := snd (demographics_data R (rng w)),
                files := (files w)(''visualizations/demographics.html'' \<mapsto>
                    demographics_figure (fst (demographics_data R (rng w))))\<rparr>)))"
  by (simp add: generate_demographics_visualization_def split_beta Let_def write_html_def)

lemma correlation_eq:
  "generate_correlation_visualization R w =
     (if ''visualizations/correlation.html'' \<in> unwritable w
      then Inl (OSError ''visualizations/correlation.html'',
                w\<lparr>rng := snd (randn2 R 8 8 (rng w))\<rparr>)
      else Inr (print (check_mark @ '' Generated correlation.html'')
             (w\<lparr>rng := snd (randn2 R 8 8 (rng w)),
                files := (files w)(''visualizations/correlation.html'' \<mapsto>
                    correlation_figure
                      (mat_div (fst (correlation_pre R (rng w))) (pre_max R (rng w))))\<rparr>)))"
  by (simp add: generate_correlation_visualization_def correlation_matrix_eq write_html_def)

lemma main_succeeds:
  assumes "unwritable w = {}"
  shows "\<exists>w'. main R w = Inr w'"
  using assms
  by (simp add: main_def timeseries_eq demographics_eq correlation_eq print_def banner_def
      snd_timeseries)

lemma main_files:
  assumes "main R w = Inr w'"
  shows "files w' ''visualizations/timeseries.html'' =
           Some (timeseries_figure (fst (timeseries_data R (banner w))))"
    and "files w' ''visualizations/demographics.html'' =
           Some (demographics_figure
             (fst (demographics_data R (rng (snd (timeseries_data R (banner w)))))))"
    and "files w' ''visualizations/correlation.html'' =
           Some (correlation_figure
             (mat_div
               (fst (correlation_pre R
                 (snd (demographics_data R (rng (snd (timeseries_data R (banner w))))))))
               (pre_max R
                 (snd (demographics_data R (rng (snd (timeseries_data R (banner w)))))))))"
  using assms
  by (auto simp: main_def timeseries_eq demographics_eq correlation_eq print_def footer_def
      snd_timeseries split: if_splits)

lemma rng_banner: "rng (banner w) = rng w"
  by (simp add: banner_def print_def)

lemma timeseries_rng_only:
  assumes "rng w = rng v"
  shows "heart_rate (fst (timeseries_data R w)) = heart_rate (fst (timeseries_data R v))"
    and "blood_pressure_sys (fst (timeseries_data R w)) =
         blood_pressure_sys (fst (timeseries_data R v))"
    and "spo2 (fst (timeseries_data R w)) = spo2 (fst (timeseries_data R v))"
    and "rng (snd (timeseries_data R w)) = rng (snd (timeseries_data R v))"
  using assms
  by (simp_all add: heart_rate_timeseries blood_pressure_timeseries spo2_timeseries
      snd_timeseries)

section \<open>The driver: claims\<close>

text \<open>
  C9: the driver runs the time-series generator, then the demographics generator, then
  the correlation generator. When one of them raises, the driver returns that very
  exception together with the world as the failing generator left it, so no later
  generator has run and nothing was recovered; when all three return, the driver
  returns the world of the third after the closing messages. In the world where only
  the demographics chart cannot be written, the driver ends with that error, the
  time-series chart written, no correlation chart, and the time-series confirmation
  as the last console line.
\<close>

theorem driver_order_no_recovery:
  "(generate_timeseries_visualization R (banner w) = Inl x \<longrightarrow> main R w = Inl x) \<and>
   (generate_timeseries_visualization R (banner w) = Inr wa \<and>
    generate_demographics_visualization R wa = Inl x \<longrightarrow> main R w = Inl x) \<and>
   (generate_timeseries_visualization R (banner w) = Inr wa \<and>
    generate_demographics_visualization R wa = Inr wb \<and>
    generate_correlation_visualization R wb = Inl x \<longrightarrow> main R w = Inl x) \<and>
   (generate_timeseries_visualization R (banner w) = Inr wa \<and>
    generate_demographics_visualization R wa = Inr wb \<and>
    generate_correlation_visualization R wb = Inr wc \<longrightarrow> main R w = Inr (footer wc))"
  by (simp add: main_def)

theorem driver_order_no_recovery_witness:
  "\<exists>wa x. generate_timeseries_visualization spike_rng (banner world2) = Inr wa \<and>
     generate_demographics_visualization spike_rng wa = Inl x \<and>
     main spike_rng world2 = Inl x \<and>
     fst x = OSError ''visualizations/demographics.html'' \<and>
     files (snd x) ''visualizations/timeseries.html'' \<noteq> None \<and>
     files (snd x) ''visualizations/demographics.html'' = None \<and>
     files (snd x) ''visualizations/correlation.html'' = None \<and>
     last (console (snd x)) = check_mark @ '' Generated timeseries.html''"
proof -
  let ?wa = "print (check_mark @ '' Generated timeseries.html'')
             ((snd (timeseries_data spike_rng (banner world2)))
                \<lparr>files := (files (banner world2))(''visualizations/timeseries.html'' \<mapsto>
                    timeseries_figure (fst (timeseries_data spike_rng (banner world2))))\<rparr>)"
  let ?x = "(OSError ''visualizations/demographics.html'',
             ?wa\<lparr>rng := snd (demographics_data spike_rng (rng ?wa))\<rparr>)"
  have a: "generate_timeseries_visualization spike_rng (banner world2) = Inr ?wa"
    by (simp add: timeseries_eq banner_def print_def world2_def world0_def)
  have b: "generate_demographics_visualization spike_rng ?wa = Inl ?x"
    by (simp add: demographics_eq print_def snd_timeseries banner_def world2_def world0_def)
  have c: "main spike_rng world2 = Inl ?x"
    using driver_order_no_recovery [of spike_rng world2 ?x ?wa] a b by blast
  have d: "files (snd ?x) ''visualizations/timeseries.html'' \<noteq> None"
    "files (snd ?x) ''visualizations/demographics.html'' = None"
    "files (snd ?x) ''visualizations/correlation.html'' = None"
    "last (console (snd ?x)) = check_mark @ '' Generated timeseries.html''"
    by (simp_all add: print_def snd_timeseries banner_def world2_def world0_def)
  show ?thesis
    by (rule exI [of _ ?wa], rule exI [of _ ?x]) (intro conjI a b c d, simp)
qed

text \<open>
  C2: two runs of the script that both complete, from any two worlds (other clock
  readings, other files and console, other earlier state of the random stream), write
  charts with the same heart-rate, blood-pressure and SpO2 sequences, the same
  demographics rows (the 15 counts) and the same correlation matrix: line 18 seeds the
  stream with 42 in both, and only the timestamps depend on anything else.
\<close>

theorem seeded_runs_agree:
  assumes "script R wa = Inr wa'" and "script R wb = Inr wb'"
  shows "\<exists>ta tb hr bp s rows M.
     files wa' ''visualizations/timeseries.html'' =
       Some (timeseries_figure
         \<lparr>timestamps = ta, heart_rate = hr, blood_pressure_sys = bp, spo2 = s\<rparr>) \<and>
     files wb' ''visualizations/timeseries.html'' =
       Some (timeseries_figure
         \<lparr>timestamps = tb, heart_rate = hr, blood_pressure_sys = bp, spo2 = s\<rparr>) \<and>
     files wa' ''visualizations/demographics.html'' = Some (demographics_figure rows) \<and>
     files wb' ''visualizations/demographics.html'' = Some (demographics_figure rows) \<and>
     files wa' ''visualizations/correlation.html'' = Some (correlation_figure M) \<and>
     files wb' ''visualizations/correlation.html'' = Some (correlation_figure M)"
proof -
  let ?a = "banner (wa\<lparr>rng := np_seed R 42\<rparr>)"
  let ?b = "banner (wb\<lparr>rng := np_seed R 42\<rparr>)"
  let ?da = "fst (timeseries_data R ?a)"
  let ?db = "fst (timeseries_data R ?b)"
  have ma: "main R (wa\<lparr>rng := np_seed R 42\<rparr>) = Inr wa'"
    and mb: "main R (wb\<lparr>rng := np_seed R 42\<rparr>) = Inr wb'"
    using assms by (simp_all add: script_def)
  have same: "rng ?a = rng ?b"
    by (simp add: rng_banner)
  note ts = timeseries_rng_only [OF same, of R]
  have da: "?da = \<lparr>timestamps = timestamps ?da, heart_rate = heart_rate ?da,
              blood_pressure_sys = blood_pressure_sys ?da, spo2 = spo2 ?da\<rparr>"
    by simp
  have db: "?db = \<lparr>timestamps = timestamps ?db, heart_rate = heart_rate ?da,
              blood_pressure_sys = blood_pressure_sys ?da, spo2 = spo2 ?da\<rparr>"
    by (simp add: ts(1-3))
  show ?thesis
    apply (rule exI [of _ "timestamps ?da"], rule exI [of _ "timestamps ?db"])
    apply (rule exI [of _ "heart_rate ?da"], rule exI [of _ "blood_pressure_sys ?da"])
    apply (rule exI [of _ "spo2 ?da"])
    apply (rule exI [of _ "fst (demographics_data R (rng (snd (timeseries_data R ?a))))"])
    apply (rule exI [of _ "mat_div
               (fst (correlation_pre R
                 (snd (demographics_data R (rng (snd (timeseries_data R ?a)))))))
               (pre_max R
                 (snd (demographics_data R (rng (snd (timeseries_data R ?a))))))"])
    apply (intro conjI)
    apply (simp only: main_files(1) [OF ma] da [symmetric])
    apply (simp only: main_files(1) [OF mb] db [symmetric])
    apply (simp only: main_files(2) [OF ma])
    apply (simp only: main_files(2) [OF mb] ts(4))
    apply (simp only: main_files(3) [OF ma])
    apply (simp only: main_files(3) [OF mb] ts(4))
    done
qed

theorem seeded_runs_agree_witness:
  "\<exists>wa' wb' ta tb hr bp s rows M.
     script spike_rng world0 = Inr wa' \<and> script spike_rng world1 = Inr wb' \<and>
     files wa' ''visualizations/timeseries.html'' =
       Some (timeseries_figure
         \<lparr>timestamps = ta, heart_rate = hr, blood_pressure_sys = bp, spo2 = s\<rparr>) \<and>
     files wb' ''visualizations/timeseries.html'' =
       Some (timeseries_figure
         \<lparr>timestamps = tb, heart_rate = hr, blood_pressure_sys = bp, spo2 = s\<rparr>) \<and>
     files wa' ''visualizations/demographics.html'' = Some (demographics_figure rows) \<and>
     files wb' ''visualizations/demographics.html'' = Some (demographics_figure rows) \<and>
     files wa' ''visualizations/correlation.html'' = Some (correlation_figure M) \<and>
     files wb' ''visualizations/correlation.html'' = Some (correlation_figure M)"
proof -
  obtain wa' where a: "script spike_rng world0 = Inr wa'"
    unfolding script_def using main_succeeds [of "world0\<lparr>rng := np_seed spike_rng 42\<rparr>" spike_rng]
    by (auto simp: world0_def)
  obtain wb' where b: "script spike_rng world1 = Inr wb'"
    unfolding script_def using main_succeeds [of "world1\<lparr>rng := np_seed spike_rng 42\<rparr>" spike_rng]
    by (auto simp: world1_def)
  from seeded_runs_agree [OF a b] a b show ?thesis by blast
qed

end
